theory Spec2Isabelle
  imports Main "HOL-Library.Sublist" "HOL-Library.Char_ord" "HOL-Library.List_Lexorder"
    "HOL-Library.Word"
begin

section \<open>Strings\<close>

text \<open>
  A JavaScript string is a sequence of UTF-16 code units. For the text the script
  compares and sorts (names, descriptions, categories, the query), the model reads a
  \<open>char\<close> as the code unit \<open>of_char c\<close>, so it covers the strings whose code units
  are below 256 (Latin-1). On these, \<open>toLowerCase\<close> maps A-Z and the capital letters
  U+00C0 to U+00DE (U+00D7, the multiplication sign, apart) to the code unit 32 above,
  \<open>trim\<close> strips the white space and line terminators TAB, LF, VT, FF, CR, SP and
  NBSP from both ends, \<open>includes\<close> is containment as a contiguous run, and the
  default order of \<open>Array.prototype.sort\<close> compares strings code unit by code unit.
\<close>

definition lower_char :: "char \<Rightarrow> char" where
  "lower_char c =
     (let n = (of_char c :: nat)
      in if (65 \<le> n \<and> n \<le> 90) \<or> (192 \<le> n \<and> n \<le> 222 \<and> n \<noteq> 215)
         then char_of (n + 32) else c)"

definition toLowerCase :: "string \<Rightarrow> string" where
  "toLowerCase s = map lower_char s"

definition is_white_space :: "char \<Rightarrow> bool" where
  "is_white_space c = ((of_char c :: nat) \<in> {9, 10, 11, 12, 13, 32, 160})"

definition trim :: "string \<Rightarrow> string" where
  "trim s = rev (dropWhile is_white_space (rev (dropWhile is_white_space s)))"

text \<open>\<open>includes_str s n\<close> is \<open>s.includes(n)\<close>: the search string \<open>n\<close> starts at some position
  of \<open>s\<close>, the end of \<open>s\<close> included.\<close>

fun includes_str :: "string \<Rightarrow> string \<Rightarrow> bool" where
  "includes_str [] n = (n = [])"
| "includes_str (c # cs) n = (prefix n (c # cs) \<or> includes_str cs n)"

text \<open>
  \<open>imageQuery\<close> is the one string handed to \<open>encodeURIComponent\<close> (line 38), which
  throws a \<open>URIError\<close> exactly when its argument holds a surrogate code unit that is not
  part of a pair. For this string all UTF-16 code units are kept, as 16-bit words;
  \<open>utf16\<close> gives the code units of a Latin-1 string.
\<close>

definition is_high :: "16 word \<Rightarrow> bool" where
  "is_high u = (0xD800 \<le> u \<and> u \<le> 0xDBFF)"

definition is_low :: "16 word \<Rightarrow> bool" where
  "is_low u = (0xDC00 \<le> u \<and> u \<le> 0xDFFF)"

fun well_formed :: "16 word list \<Rightarrow> bool" where
  "well_formed [] = True"
| "well_formed [u] = (\<not> is_high u \<and> \<not> is_low u)"
| "well_formed (u # v # vs) =
     (if is_high u then is_low v \<and> well_formed vs
      else \<not> is_low u \<and> well_formed (v # vs))"

definition utf16 :: "string \<Rightarrow> 16 word list" where
  "utf16 s = map of_char s"

datatype error = TypeError | URIError

section \<open>Records and the filter\<close>

text \<open>The interface \<open>Innovation\<close> (lines 8 to 15).\<close>

record Innovation =
  name :: string
  description :: string
  category :: string
  imageQuery :: "16 word list"
  learnMoreUrl :: string
  significance :: string

text \<open>
  \<open>activeCategory\<close> has the type \<open>string | null\<close>; \<open>None\<close> is \<open>null\<close>. The test
  \<open>!activeCategory\<close> of line 120 is JavaScript's truthiness: \<open>null\<close> and the empty
  string are falsy, every other string is truthy.
\<close>

definition truthy :: "string option \<Rightarrow> bool" where
  "truthy v = (case v of None \<Rightarrow> False | Some s \<Rightarrow> s \<noteq> [])"

text \<open>The callback handed to \<open>allInnovations.filter\<close> (lines 117 to 122).\<close>

definition keep :: "string \<Rightarrow> string option \<Rightarrow> Innovation \<Rightarrow> bool" where
  "keep normalizedQuery activeCategory innovation =
     (let matchesQuery =
            (includes_str (toLowerCase (name innovation)) normalizedQuery \<or>
             includes_str (toLowerCase (description innovation)) normalizedQuery);
          matchesCategory =
            (\<not> truthy activeCategory \<or> Some (category innovation) = activeCategory)
      in matchesQuery \<and> matchesCategory)"

text \<open>
  The constant \<open>filtered\<close> of \<open>filterInnovations\<close> (lines 114 to 122), with the
  catalog it reads, the global \<open>allInnovations\<close>, as its first argument (\<open>cat\<close> is
  the parameter \<open>category\<close>).
  \<open>Array.prototype.filter\<close> builds a new array of the elements the callback accepts,
  in the order of the array it is called on.
\<close>

definition filtered :: "Innovation list \<Rightarrow> string \<Rightarrow> string \<Rightarrow> Innovation list" where
  "filtered catalog query cat =
     (let normalizedQuery = trim (toLowerCase query);
          activeCategory = (if cat = ''all'' then None else Some cat)
      in filter (keep normalizedQuery activeCategory) catalog)"

text \<open>
  Line 82 of \<open>setupFilters\<close>:
  \<open>Array.from(new Set(innovations.map(i => i.category))).sort()\<close>. A \<open>Set\<close> keeps each
  value once, at the place of its first insertion; \<open>Array.from\<close> lists it in that
  order and \<open>sort\<close> orders the fresh array.
\<close>

definition set_add :: "'a list \<Rightarrow> 'a \<Rightarrow> 'a list" where
  "set_add s x = (if x \<in> set s then s else s @ [x])"

definition new_Set :: "'a list \<Rightarrow> 'a list" where
  "new_Set xs = foldl set_add [] xs"

definition categories :: "Innovation list \<Rightarrow> string list" where
  "categories innovations = sort (new_Set (map category innovations))"

section \<open>Objects at run time\<close>

text \<open>
  The annotation \<open>Innovation[]\<close> of line 180 is not checked when the script runs: an
  element of the parsed array is an object whose properties may be absent, and
  reading an absent property gives \<open>undefined\<close>, here \<open>None\<close>. The objects covered
  are those whose six properties are strings where they are present; no other
  property is read. An element that is a number, a string, a boolean or an array has
  none of the six properties and behaves as the object without properties.
  \<open>object_of\<close> is the object of a record that has all six.
\<close>

record object =
  prop_name :: "string option"
  prop_description :: "string option"
  prop_category :: "string option"
  prop_imageQuery :: "16 word list option"
  prop_learnMoreUrl :: "string option"
  prop_significance :: "string option"

definition object_of :: "Innovation \<Rightarrow> object" where
  "object_of i =
     \<lparr>prop_name = Some (name i), prop_description = Some (description i),
      prop_category = Some (category i), prop_imageQuery = Some (imageQuery i),
      prop_learnMoreUrl = Some (learnMoreUrl i), prop_significance = Some (significance i)\<rparr>"

text \<open>The string of a value that is a string or \<open>undefined\<close>, as a template literal
  (line 128) and the \<open>dataset\<close> setter (line 92) make it.\<close>

definition ToString :: "string option \<Rightarrow> string" where
  "ToString v = (case v of None \<Rightarrow> ''undefined'' | Some s \<Rightarrow> s)"

text \<open>
  The callback of lines 117 to 122 on an object. \<open>innovation.name.toLowerCase()\<close>
  throws a \<open>TypeError\<close> when the name is absent; the description is read only when
  the name does not contain the query. \<open>activeCategory\<close> is \<open>None\<close> for \<open>null\<close> and
  for \<open>undefined\<close>, which are both falsy.
\<close>

definition keep_object :: "string \<Rightarrow> string option \<Rightarrow> object \<Rightarrow> error + bool" where
  "keep_object normalizedQuery activeCategory innovation =
     (let matchesCategory =
            (\<not> truthy activeCategory \<or> prop_category innovation = activeCategory)
      in case prop_name innovation of
           None \<Rightarrow> Inl TypeError
         | Some n \<Rightarrow>
             if includes_str (toLowerCase n) normalizedQuery then Inr matchesCategory
             else (case prop_description innovation of
                     None \<Rightarrow> Inl TypeError
                   | Some d \<Rightarrow>
                       Inr (includes_str (toLowerCase d) normalizedQuery \<and> matchesCategory)))"

text \<open>\<open>Array.prototype.filter\<close> with a callback that may throw: the first throw ends
  the call.\<close>

fun array_filter :: "('a \<Rightarrow> error + bool) \<Rightarrow> 'a list \<Rightarrow> error + 'a list" where
  "array_filter f [] = Inr []"
| "array_filter f (x # xs) =
     (case f x of
        Inl e \<Rightarrow> Inl e
      | Inr b \<Rightarrow>
          (case array_filter f xs of
             Inl e \<Rightarrow> Inl e
           | Inr ys \<Rightarrow> Inr (if b then x # ys else ys)))"

text \<open>Lines 114 to 122 on the objects of the store. The argument \<open>cat\<close> (the
  parameter \<open>category\<close>) is \<open>undefined\<close> when the pill clicked was made for an absent
  category.\<close>

definition filtered_objects ::
  "object list \<Rightarrow> string \<Rightarrow> string option \<Rightarrow> error + object list" where
  "filtered_objects catalog query cat =
     (let normalizedQuery = trim (toLowerCase query);
          activeCategory = (if cat = Some ''all'' then None else cat)
      in array_filter (keep_object normalizedQuery activeCategory) catalog)"

text \<open>Line 82 on objects: the default sort puts \<open>undefined\<close> after every string.\<close>

definition sort_default :: "string option list \<Rightarrow> string option list" where
  "sort_default vs =
     map Some (sort (map the (filter (\<lambda>v. v \<noteq> None) vs))) @ filter (\<lambda>v. v = None) vs"

definition categories_objects :: "object list \<Rightarrow> string option list" where
  "categories_objects innovations = sort_default (new_Set (map prop_category innovations))"

section \<open>The page\<close>

text \<open>
  The state the script works on: the module variable \<open>allInnovations\<close> and what the
  script reads and writes of the document. The elements \<open>loader\<close>, \<open>errorMessage\<close>
  and \<open>noResultsMessage\<close> are tested for null before each use, so each is optional here;
  \<open>dashboard\<close>, \<open>categoryFilters\<close>, \<open>spotlightContainer\<close> and \<open>searchInput\<close> are
  used unguarded and are taken to exist. Record text is written into the document as
  markup (lines 40 and 62); that markup is taken to run no script.
\<close>

record indicator =
  display :: string
  textContent :: string

text \<open>The value of \<open>allInnovations\<close>: an array of objects, or another value that
  \<open>JSON.parse\<close> can return and on which \<open>innovations.map(i => i.category)\<close> (line 82)
  and \<open>allInnovations.filter\<close> (line 117) throw a \<open>TypeError\<close>: a value that is not
  an array, or an array with a \<open>null\<close> element.\<close>

datatype stored = Records "object list" | Other

text \<open>A card made by \<open>createCard\<close>: its markup and its click listener are determined
  by the object it is made from. Scrolling (lines 70 and 75) is not part of the state.\<close>

datatype card = Card object

datatype element = SearchInput | OtherElement bool

text \<open>Whether an element is a text field; the flag of \<open>OtherElement\<close> says so for
  the elements other than the search field.\<close>

fun is_text_field :: "element \<Rightarrow> bool" where
  "is_text_field SearchInput = True"
| "is_text_field (OtherElement b) = b"

record page =
  allInnovations :: stored
  assignments :: nat
  loader :: "indicator option"
  errorMessage :: "indicator option"
  noResultsMessage :: "indicator option"
  dashboard :: "card list"
  categoryFilters :: "string option list"
  allPill :: bool
  allPill_listener :: bool
  active :: "string option"
  spotlight :: "object option"
  searchInput_value :: string
  activeElement :: element
  listeners :: bool

text \<open>
  \<^item> \<open>assignments\<close> counts the assignments to \<open>allInnovations\<close> (a ghost field).
  \<^item> \<open>dashboard\<close> lists the cards appended to the grid.
  \<^item> \<open>categoryFilters\<close> lists the pills made by \<open>setupFilters\<close>, each with its
    listener: a pill is given by the value \<open>cat\<close> its listener holds, and its
    \<open>data-category\<close> is \<open>ToString cat\<close>.
  \<^item> \<open>allPill\<close> says that the document has the pill with \<open>data-category="all"\<close>,
    \<open>allPill_listener\<close> that its click listener is installed.
  \<^item> \<open>active\<close> is the \<open>data-category\<close> of the pill of class \<open>active\<close>, when there
    is one.
  \<^item> \<open>spotlight\<close> is the object \<open>updateSpotlight\<close> rendered last, \<open>None\<close> before the
    first call.
  \<^item> \<open>listeners\<close> says that the listeners of lines 199 to 210 are installed.
\<close>

text \<open>How a function ends, next to the page it leaves: it returns, or it throws and
  the page is as it was at the throw.\<close>

datatype completion = Normal | Throw error

text \<open>\<open>createCard\<close> (lines 31 to 56). \<open>encodeURIComponent\<close> turns an absent
  \<open>imageQuery\<close> into the text "undefined" and throws on a string with an unpaired
  surrogate; the template literals of lines 40 to 52 do not throw.\<close>

definition createCard :: "object \<Rightarrow> error + card" where
  "createCard innovation =
     (case prop_imageQuery innovation of
        None \<Rightarrow> Inr (Card innovation)
      | Some q \<Rightarrow> if well_formed q then Inr (Card innovation) else Inl URIError)"

definition updateSpotlight :: "object \<Rightarrow> page \<Rightarrow> page" where
  "updateSpotlight innovation s = s\<lparr>spotlight := Some innovation\<rparr>"

text \<open>The loop of \<open>renderGrid\<close> (lines 137 to 139): the cards made before a throw
  stay in the grid.\<close>

fun appendCards :: "object list \<Rightarrow> page \<Rightarrow> completion \<times> page" where
  "appendCards [] s = (Normal, s)"
| "appendCards (innovation # rest) s =
     (case createCard innovation of
        Inl e \<Rightarrow> (Throw e, s)
      | Inr c \<Rightarrow> appendCards rest (s\<lparr>dashboard := dashboard s @ [c]\<rparr>))"

definition renderGrid :: "object list \<Rightarrow> page \<Rightarrow> completion \<times> page" where
  "renderGrid innovations s = appendCards innovations (s\<lparr>dashboard := []\<rparr>)"

text \<open>\<open>filterInnovations\<close> (lines 113 to 130); \<open>cat\<close> is the parameter
  \<open>category\<close>.\<close>

definition filterInnovations :: "string \<Rightarrow> string option \<Rightarrow> page \<Rightarrow> completion \<times> page" where
  \<open>filterInnovations query cat s =
     (case allInnovations s of
        Other \<Rightarrow> (Throw TypeError, s)
      | Records catalog \<Rightarrow>
          (case filtered_objects catalog query cat of
             Inl e \<Rightarrow> (Throw e, s)
           | Inr flt \<Rightarrow>
               (case renderGrid flt s of
                  (Throw e, s1) \<Rightarrow> (Throw e, s1)
                | (Normal, s1) \<Rightarrow>
                    (Normal,
                     s1\<lparr>noResultsMessage :=
                          map_option
                            (\<lambda>m. m\<lparr>display := (if length flt = 0 then ''block'' else ''none''),
                                   textContent := ''No breakthroughs found for "'' @ query @
                                                  ''" in '' @ ToString cat @ ''...''\<rparr>)
                            (noResultsMessage s1)\<rparr>))))\<close>

text \<open>
  \<open>setupFilters\<close> (lines 81 to 108). The pills whose \<open>data-category\<close> is not "all"
  are removed, the active one with them; one pill is made for each category, and the
  "all" pill gets its listener when the document has it.
\<close>

definition setupFilters :: "object list \<Rightarrow> page \<Rightarrow> page" where
  "setupFilters innovations s =
     (let cats = categories_objects innovations;
          s1 = s\<lparr>categoryFilters := filter (\<lambda>c. ToString c = ''all'') (categoryFilters s),
                 active := (if active s = Some ''all'' then active s else None)\<rparr>;
          s2 = foldl (\<lambda>t cat. t\<lparr>categoryFilters := categoryFilters t @ [cat]\<rparr>) s1 cats
      in s2\<lparr>allPill_listener := allPill s2\<rparr>)"

text \<open>The click listener of the pill made for \<open>cat\<close> (lines 93 to 97) and of the
  "all" pill (lines 103 to 107). A listener that throws leaves the page as it was at
  the throw.\<close>

definition pill_click :: "string option \<Rightarrow> page \<Rightarrow> completion \<times> page" where
  "pill_click cat s =
     filterInnovations (searchInput_value s) cat (s\<lparr>active := Some (ToString cat)\<rparr>)"

definition allPill_click :: "page \<Rightarrow> completion \<times> page" where
  "allPill_click s =
     filterInnovations (searchInput_value s) (Some ''all'') (s\<lparr>active := Some ''all''\<rparr>)"

text \<open>
  The input listener of the search field (lines 199 to 202). Line 200 takes the first
  element of class \<open>filter-pill active\<close> of the whole document. \<open>found\<close> is
  \<open>Some d\<close> when that element is not a pill but markup written from record text, with
  \<open>d\<close> its \<open>data-category\<close>, if it has one; it is \<open>None\<close> when the first such element,
  if there is any, is a pill. \<open>activeCat?.dataset.category || 'all'\<close> takes \<open>'all'\<close>
  when there is no element, no \<open>data-category\<close>, or the empty string.
\<close>

definition search_input :: "string option option \<Rightarrow> page \<Rightarrow> completion \<times> page" where
  "search_input found s =
     (let category_of_active = (case found of None \<Rightarrow> active s | Some d \<Rightarrow> d)
      in filterInnovations (searchInput_value s)
           (if truthy category_of_active then category_of_active else Some ''all'') s)"

text \<open>The keydown listener (lines 205 to 210). The result says whether the event's
  default action was prevented.\<close>

record keyboard_event =
  key :: string
  target :: element

definition keydown :: "keyboard_event \<Rightarrow> page \<Rightarrow> bool \<times> page" where
  "keydown e s =
     (if key e = ''/'' \<and> activeElement s \<noteq> SearchInput
      then (True, s\<lparr>activeElement := SearchInput\<rparr>)
      else (False, s))"

section \<open>Startup\<close>

text \<open>
  What lines 147 to 180 of \<open>run\<close> give: the client or the awaited request fails,
  \<open>JSON.parse\<close> throws on the response text, or it returns a value: \<open>data\<close>, an
  array of objects, or a value that is not an array or is an array with a \<open>null\<close>
  element. A parsed array in which a property that is present is not a string is not
  among the inputs. A request that never settles leaves \<open>run\<close> suspended at line 170
  and is not an outcome. The console output of \<open>run\<close> is left out.
\<close>

datatype response = Rejected | Unparsable | Parsed "object list" | ParsedOther

datatype branch = Completed | Caught

definition hide :: "indicator option \<Rightarrow> indicator option" where
  "hide e = map_option (\<lambda>l. l\<lparr>display := ''none''\<rparr>) e"

text \<open>The catch block (lines 212 to 219).\<close>

definition catch_block :: "page \<Rightarrow> page" where
  "catch_block s =
     (let s1 = s\<lparr>loader := hide (loader s)\<rparr>
      in s1\<lparr>errorMessage :=
              map_option (\<lambda>m. m\<lparr>display := ''block'',
                                textContent := ''We encountered a rift in the data stream. Please reload to try again.''\<rparr>)
                (errorMessage s1)\<rparr>)"

text \<open>\<open>run\<close> (lines 145 to 220). Lines 181 to 210 are in the try block: when
  \<open>setupFilters\<close> throws at line 82, or \<open>renderGrid\<close> throws, the catch block runs
  on the page as the throw left it, with the store assigned. From line 181 on
  \<open>allInnovations\<close> is \<open>data\<close>.\<close>

definition run :: "response \<Rightarrow> page \<Rightarrow> branch \<times> page" where
  "run r s =
     (case r of
        Rejected \<Rightarrow> (Caught, catch_block s)
      | Unparsable \<Rightarrow> (Caught, catch_block s)
      | ParsedOther \<Rightarrow>
          (let s1 = s\<lparr>allInnovations := Other, assignments := Suc (assignments s)\<rparr>;
               s2 = s1\<lparr>loader := hide (loader s1)\<rparr>
           in (Caught, catch_block s2))
      | Parsed data \<Rightarrow>
          (let s1 = s\<lparr>allInnovations := Records data, assignments := Suc (assignments s)\<rparr>;
               s2 = s1\<lparr>loader := hide (loader s1)\<rparr>;
               s3 = setupFilters data s2
           in case renderGrid data s3 of
                (Throw e, s4) \<Rightarrow> (Caught, catch_block s4)
              | (Normal, s4) \<Rightarrow>
                  (let s5 = (if length data > 0 then updateSpotlight (data ! 0) s4 else s4)
                   in (Completed, s5\<lparr>listeners := True\<rparr>))))"

text \<open>The page as the script finds it: the store is empty (line 17), nothing has
  been rendered and no listener is installed; the rest is the document's.\<close>

definition initial ::
  "indicator option \<Rightarrow> indicator option \<Rightarrow> indicator option \<Rightarrow> bool \<Rightarrow> string option \<Rightarrow> element \<Rightarrow> page" where
  "initial ld err nores allp act foc =
     \<lparr>allInnovations = Records [], assignments = 0, loader = ld, errorMessage = err,
      noResultsMessage = nores, dashboard = [], categoryFilters = [], allPill = allp,
      allPill_listener = False, active = act, spotlight = None, searchInput_value = [],
      activeElement = foc, listeners = False\<rparr>"

section \<open>Events\<close>

datatype event =
    CardClick nat
  | PillClick nat
  | AllPillClick
  | Input string "string option option"
  | KeyDown keyboard_event
  | BackToGridClick

text \<open>
  What an event does to the page: a click on the \<open>i\<close>-th card or pill runs its
  listener; editing the search field sets its value and fires the input listener; the
  listeners of the "all" pill, of the search field and of the window run once installed.
  An error thrown in a listener is not caught, and the page stays as the throw left it.
  The spotlight's "Back to Grid" button scrolls the window and changes nothing else.
\<close>

fun dispatch :: "page \<Rightarrow> event \<Rightarrow> page" where
  "dispatch s (CardClick i) =
     (if i < length (dashboard s)
      then (case dashboard s ! i of Card innovation \<Rightarrow> updateSpotlight innovation s)
      else s)"
| "dispatch s (PillClick i) =
     (if i < length (categoryFilters s) then snd (pill_click (categoryFilters s ! i) s) else s)"
| "dispatch s AllPillClick = (if allPill_listener s then snd (allPill_click s) else s)"
| "dispatch s (Input text found) =
     (let s1 = s\<lparr>searchInput_value := text\<rparr>
      in if listeners s1 then snd (search_input found s1) else s1)"
| "dispatch s (KeyDown e) = (if listeners s then snd (keydown e s) else s)"
| "dispatch s BackToGridClick = s"

definition session :: "page \<Rightarrow> event list \<Rightarrow> page" where
  "session s es = foldl dispatch s es"

section \<open>The specification's wording and sample data\<close>

text \<open>
  The inclusion condition in the specification's words: the lowercased, trimmed query
  is a substring of the lowercased name or description, and the category is "all" or
  equal to the record's.
\<close>

definition claimed_match :: "string \<Rightarrow> string \<Rightarrow> Innovation \<Rightarrow> bool" where
  "claimed_match q c r =
     ((sublist (trim (toLowerCase q)) (toLowerCase (name r)) \<or>
       sublist (trim (toLowerCase q)) (toLowerCase (description r))) \<and>
      (c = ''all'' \<or> category r = c))"

definition sample :: "string \<Rightarrow> string \<Rightarrow> string \<Rightarrow> Innovation" where
  "sample n d c =
     \<lparr>name = n, description = d, category = c, imageQuery = utf16 n,
      learnMoreUrl = ''https://en.wikipedia.org/wiki/Technology'', significance = d\<rparr>"

definition crispr :: Innovation where
  "crispr = sample ''CRISPR Gene Editing'' ''Genome editing tool'' ''Medicine''"

definition fusion :: Innovation where
  "fusion = sample ''Fusion Power'' ''Energy from fusing nuclei'' ''Energy''"

definition mrna :: Innovation where
  "mrna = sample ''mRNA Vaccines'' ''Vaccines from messenger RNA'' ''Medicine''"

definition abacus :: Innovation where
  "abacus = sample ''Abacus'' ''Counting frame'' []"

definition rocket :: Innovation where
  "rocket = sample ''Reusable Rockets'' ''Boosters that land and fly again'' ''Space''"

definition telescope :: Innovation where
  "telescope = sample ''Space Telescope'' ''Infrared observatory'' ''Space''"

definition llm :: Innovation where
  "llm = sample ''Large Language Models'' ''Text models trained at scale'' ''AI''"

text \<open>A record whose image query ends in the first half of a surrogate pair, and the
  object of a record without the property \<open>significance\<close>.\<close>

definition quantum :: Innovation where
  "quantum =
     (sample ''Quantum Computing'' ''Computing with qubits'' ''Computing'')
       \<lparr>imageQuery := utf16 ''quantum '' @ [0xD83D]\<rparr>"

definition partial :: object where
  "partial = (object_of fusion)\<lparr>prop_significance := None\<rparr>"

text \<open>A page before \<open>run\<close>: the loader shown, the error and no-results indicators
  hidden, the "all" pill present and active, the focus on an element that is not a
  text field; and the same page with the focus in a text field other than the search
  field.\<close>

definition page0 :: page where
  "page0 =
     initial (Some \<lparr>display = ''flex'', textContent = []\<rparr>)
       (Some \<lparr>display = ''none'', textContent = []\<rparr>)
       (Some \<lparr>display = ''none'', textContent = []\<rparr>)
       True (Some ''all'') (OtherElement False)"

definition page1 :: page where
  "page1 = page0\<lparr>activeElement := OtherElement True\<rparr>"

definition slash :: keyboard_event where
  "slash = \<lparr>key = ''/'', target = OtherElement True\<rparr>"

section \<open>The filter\<close>

lemma includes_str_sublist: "includes_str h n = sublist n h"
  by (induction h) (auto simp: sublist_Cons_right)

lemma filtered_filter:
  "filtered catalog q c =
     filter (keep (trim (toLowerCase q)) (if c = ''all'' then None else Some c)) catalog"
  by (simp add: filtered_def)

lemma keep_iff:
  "keep (trim (toLowerCase q)) (if c = ''all'' then None else Some c) r \<longleftrightarrow>
     (sublist (trim (toLowerCase q)) (toLowerCase (name r)) \<or>
      sublist (trim (toLowerCase q)) (toLowerCase (description r))) \<and>
     (c = ''all'' \<or> c = [] \<or> category r = c)"
  by (auto simp: keep_def truthy_def includes_str_sublist)

lemma trim_blank: "trim (toLowerCase ''  '') = []"
  by (simp add: trim_def toLowerCase_def lower_char_def is_white_space_def)

lemma trim_empty: "trim (toLowerCase []) = []"
  by (simp add: trim_def toLowerCase_def)

lemma trim_gene: "trim (toLowerCase '' GENE '') = ''gene''"
  by code_simp

lemma lower_crispr: "toLowerCase (name crispr) = ''crispr gene editing''"
  by code_simp

lemma sublist_gene: "sublist ''gene'' ''crispr gene editing''"
  unfolding sublist_def
proof (intro exI)
  show "''crispr gene editing'' = ''crispr '' @ ''gene'' @ '' editing''" by simp
qed

text \<open>
  C1 (as stated): the filter includes a record exactly when the normalized query is a
  substring of its lowercased name or description and the category is "all" or equal
  to the record's category. This fails for the empty category string: a click on the
  pill of a record without category text calls the filter with \<open>""\<close>, which is falsy
  in the test of line 120, so every record that matches the query is kept, whatever
  its category.
\<close>

theorem C1_empty_category_counterexample:
  "fusion \<in> set (filtered [abacus, fusion] [] []) \<and> \<not> claimed_match [] [] fusion"
proof
  have "keep [] (Some []) fusion"
    by (simp add: keep_def truthy_def fusion_def sample_def toLowerCase_def)
  then show "fusion \<in> set (filtered [abacus, fusion] [] [])"
    by (simp add: filtered_filter trim_empty)
  show "\<not> claimed_match [] [] fusion"
    by (simp add: claimed_match_def fusion_def sample_def)
qed

text \<open>
  C1 (amended): a record of the catalog is in the filter's result exactly when the
  lowercased, trimmed query is a substring of its lowercased name or of its lowercased
  description, and the category argument is "all", or is the empty string, or equals
  the record's category. In particular, when the query is empty after trimming, the
  records kept are those the category argument admits.
\<close>

theorem C1_filter_membership:
  "(r \<in> set (filtered catalog q c) \<longleftrightarrow>
      r \<in> set catalog \<and>
      (sublist (trim (toLowerCase q)) (toLowerCase (name r)) \<or>
       sublist (trim (toLowerCase q)) (toLowerCase (description r))) \<and>
      (c = ''all'' \<or> c = [] \<or> category r = c)) \<and>
   (trim (toLowerCase q) = [] \<longrightarrow>
      (r \<in> set (filtered catalog q c) \<longleftrightarrow>
         r \<in> set catalog \<and> (c = ''all'' \<or> c = [] \<or> category r = c)))"
  unfolding filtered_filter set_filter mem_Collect_eq keep_iff by auto

theorem C1_filter_membership_witness:
  "trim (toLowerCase ''  '') = [] \<and>
   crispr \<in> set (filtered [crispr, fusion, mrna] ''  '' ''Medicine'') \<and>
   fusion \<notin> set (filtered [crispr, fusion, mrna] ''  '' ''Medicine'') \<and>
   crispr \<in> set (filtered [crispr, fusion, mrna] '' GENE '' ''all'')"
proof -
  have c: "category crispr = ''Medicine''" and f: "category fusion \<noteq> ''Medicine''"
    by (simp_all add: crispr_def fusion_def sample_def)
  have g: "sublist (trim (toLowerCase '' GENE '')) (toLowerCase (name crispr))"
    by (simp only: trim_gene lower_crispr sublist_gene)
  show ?thesis
    using trim_blank c f g
      C1_filter_membership [of crispr "[crispr, fusion, mrna]" "''  ''" "''Medicine''"]
      C1_filter_membership [of fusion "[crispr, fusion, mrna]" "''  ''" "''Medicine''"]
      C1_filter_membership [of crispr "[crispr, fusion, mrna]" "'' GENE ''" "''all''"]
    by simp
qed

lemma medicine_filter: "filtered [crispr, fusion, mrna] [] ''Medicine'' = [crispr, mrna]"
  by code_simp

lemma filter_split_at:
  assumes "k < length xs" and "P (xs ! k)"
  shows "filter P xs = filter P (take k xs) @ xs ! k # filter P (drop (Suc k) xs)"
proof -
  have "xs = take k xs @ xs ! k # drop (Suc k) xs"
    using assms(1) by (rule id_take_nth_drop)
  then have "filter P xs = filter P (take k xs @ xs ! k # drop (Suc k) xs)"
    by simp
  with assms(2) show ?thesis by simp
qed

lemma filter_keeps_order:
  assumes "i < j" and "j < length xs" and "P (xs ! i)" and "P (xs ! j)"
  shows "\<exists>i' j'. i' < j' \<and> j' < length (filter P xs) \<and>
           filter P xs ! i' = xs ! i \<and> filter P xs ! j' = xs ! j"
proof -
  let ?i = "length (filter P (take i xs))" and ?j = "length (filter P (take j xs))"
  have i: "filter P xs = filter P (take i xs) @ xs ! i # filter P (drop (Suc i) xs)"
    using assms by (intro filter_split_at) auto
  have j: "filter P xs = filter P (take j xs) @ xs ! j # filter P (drop (Suc j) xs)"
    using assms by (intro filter_split_at) auto
  have "filter P (take j xs) =
          filter P (take i (take j xs)) @ take j xs ! i # filter P (drop (Suc i) (take j xs))"
    using assms by (intro filter_split_at) auto
  moreover have "take i (take j xs) = take i xs"
    using assms(1) by (simp add: min_def)
  ultimately have lt: "?i < ?j"
    by simp
  have "filter P xs ! ?i = xs ! i"
    by (subst i) (simp only: nth_append_length)
  moreover have "filter P xs ! ?j = xs ! j"
    by (subst j) (simp only: nth_append_length)
  moreover have "?j < length (filter P xs)"
  proof -
    have "length (filter P xs) = ?j + Suc (length (filter P (drop (Suc j) xs)))"
      using arg_cong [OF j, of length] by simp
    then show ?thesis by simp
  qed
  ultimately show ?thesis
    using lt by blast
qed

text \<open>
  C3: the filter's result is a subsequence of the catalog: it holds no record more
  often than the catalog does, and two catalog positions \<open>i < j\<close> whose records are
  both in the result are met in the result in this order.
\<close>

theorem C3_order_preserved:
  "subseq (filtered catalog q c) catalog \<and>
   (\<forall>r. count_list (filtered catalog q c) r \<le> count_list catalog r) \<and>
   (\<forall>i j. i < j \<and> j < length catalog \<and>
          catalog ! i \<in> set (filtered catalog q c) \<and>
          catalog ! j \<in> set (filtered catalog q c) \<longrightarrow>
      (\<exists>i' j'. i' < j' \<and> j' < length (filtered catalog q c) \<and>
          filtered catalog q c ! i' = catalog ! i \<and> filtered catalog q c ! j' = catalog ! j))"
proof (intro conjI allI impI)
  show "subseq (filtered catalog q c) catalog"
    by (simp add: filtered_filter)
next
  fix r
  show "count_list (filtered catalog q c) r \<le> count_list catalog r"
    unfolding filtered_filter by (induction catalog) auto
next
  fix i j
  assume "i < j \<and> j < length catalog \<and>
          catalog ! i \<in> set (filtered catalog q c) \<and>
          catalog ! j \<in> set (filtered catalog q c)"
  then show "\<exists>i' j'. i' < j' \<and> j' < length (filtered catalog q c) \<and>
          filtered catalog q c ! i' = catalog ! i \<and> filtered catalog q c ! j' = catalog ! j"
    unfolding filtered_filter by (intro filter_keeps_order) auto
qed

theorem C3_order_preserved_witness:
  "subseq (filtered [crispr, fusion, mrna] [] ''Medicine'') [crispr, fusion, mrna] \<and>
   (\<exists>i' j'. i' < j' \<and> j' < length (filtered [crispr, fusion, mrna] [] ''Medicine'') \<and>
       filtered [crispr, fusion, mrna] [] ''Medicine'' ! i' = crispr \<and>
       filtered [crispr, fusion, mrna] [] ''Medicine'' ! j' = mrna)"
proof -
  let ?cat = "[crispr, fusion, mrna]"
  note inst = C3_order_preserved [of ?cat "[]" "''Medicine''"]
  have "(0::nat) < 2 \<and> 2 < length ?cat \<and>
        ?cat ! 0 \<in> set (filtered ?cat [] ''Medicine'') \<and>
        ?cat ! 2 \<in> set (filtered ?cat [] ''Medicine'')"
    by (simp add: medicine_filter)
  with inst have "\<exists>i' j'. i' < j' \<and> j' < length (filtered ?cat [] ''Medicine'') \<and>
       filtered ?cat [] ''Medicine'' ! i' = ?cat ! 0 \<and>
       filtered ?cat [] ''Medicine'' ! j' = ?cat ! 2"
    by blast
  with inst show ?thesis by simp
qed

text \<open>
  C6: the filter is idempotent: applied with the same query and category to its own
  result, it gives that result again.
\<close>

theorem C6_idempotent: "filtered (filtered catalog q c) q c = filtered catalog q c"
  by (simp add: filtered_filter)

theorem C6_idempotent_witness:
  "filtered (filtered [crispr, fusion, mrna] [] ''Medicine'') [] ''Medicine'' = [crispr, mrna]"
  using C6_idempotent [of "[crispr, fusion, mrna]" "[]" "''Medicine''"]
  by (simp only: medicine_filter)

section \<open>The category set\<close>

lemma set_foldl_set_add: "set (foldl set_add acc xs) = set acc \<union> set xs"
  by (induction xs arbitrary: acc) (auto simp: set_add_def)

lemma distinct_foldl_set_add: "distinct acc \<Longrightarrow> distinct (foldl set_add acc xs)"
  by (induction xs arbitrary: acc) (auto simp: set_add_def)

lemma set_new_Set: "set (new_Set xs) = set xs"
  by (simp add: new_Set_def set_foldl_set_add)

lemma distinct_new_Set: "distinct (new_Set xs)"
  by (simp add: new_Set_def distinct_foldl_set_add)

lemma sort_example:
  "sort (new_Set [''Space'', ''Energy'', ''Space'', ''AI'']) = [''AI'', ''Energy'', ''Space'']"
  by (simp add: new_Set_def set_add_def)

text \<open>
  C4: the derived category list holds exactly the category values of the catalog, in
  lexicographic order and without duplicates; it depends on the catalog's categories
  only, and for records of categories "Space", "Energy", "Space", "AI" it is
  "AI", "Energy", "Space".
\<close>

theorem C4_categories:
  "set (categories catalog) = category ` set catalog \<and>
   sorted (categories catalog) \<and> distinct (categories catalog) \<and>
   (map category xs = map category ys \<longrightarrow> categories xs = categories ys) \<and>
   (map category rs = [''Space'', ''Energy'', ''Space'', ''AI''] \<longrightarrow>
      categories rs = [''AI'', ''Energy'', ''Space''])"
proof (intro conjI impI)
  show "set (categories catalog) = category ` set catalog"
    by (simp add: categories_def set_new_Set)
  show "sorted (categories catalog)"
    by (simp add: categories_def)
  show "distinct (categories catalog)"
    by (simp add: categories_def distinct_new_Set)
next
  assume "map category xs = map category ys"
  then show "categories xs = categories ys"
    by (simp add: categories_def)
next
  assume "map category rs = [''Space'', ''Energy'', ''Space'', ''AI'']"
  then show "categories rs = [''AI'', ''Energy'', ''Space'']"
    by (simp only: categories_def sort_example)
qed

theorem C4_categories_witness:
  "map category [rocket, fusion, telescope, llm] = [''Space'', ''Energy'', ''Space'', ''AI''] \<and>
   categories [rocket, fusion, telescope, llm] = [''AI'', ''Energy'', ''Space''] \<and>
   sorted (categories [rocket, fusion, telescope, llm])"
proof -
  have m: "map category [rocket, fusion, telescope, llm] =
             [''Space'', ''Energy'', ''Space'', ''AI'']"
    by (simp add: rocket_def fusion_def telescope_def llm_def sample_def)
  note inst = C4_categories [of "[rocket, fusion, telescope, llm]"
      "[rocket, fusion, telescope, llm]" "[rocket, fusion, telescope, llm]"
      "[rocket, fusion, telescope, llm]"]
  from inst have s: "sorted (categories [rocket, fusion, telescope, llm])"
    by (elim conjE)
  from inst m have "categories [rocket, fusion, telescope, llm] = [''AI'', ''Energy'', ''Space'']"
    by (elim conjE) (erule mp)
  with m s show ?thesis by (intro conjI)
qed

section \<open>Records as objects\<close>

text \<open>On the objects of records that have all six properties, the filter and the
  category list are those of the records.\<close>

lemma keep_object_of: "keep_object nq ac (object_of r) = Inr (keep nq ac r)"
  by (auto simp: keep_object_def keep_def object_of_def Let_def)

lemma array_filter_Inr: "array_filter (\<lambda>x. Inr (P x)) xs = Inr (filter P xs)"
  by (induction xs) simp_all

lemma filtered_objects_of:
  "filtered_objects (map object_of catalog) q (Some c) = Inr (map object_of (filtered catalog q c))"
proof -
  have "array_filter (keep_object nq ac) (map object_of catalog) =
          Inr (map object_of (filter (keep nq ac) catalog))" for nq ac
    by (induction catalog) (simp_all add: keep_object_of)
  then show ?thesis
    by (simp add: filtered_objects_def filtered_def Let_def)
qed

lemma foldl_set_add_Some:
  "foldl set_add (map Some acc) (map Some xs) = map Some (foldl set_add acc xs)"
proof (induction xs arbitrary: acc)
  case Nil
  show ?case by simp
next
  case (Cons x xs)
  have "set_add (map Some acc) (Some x) = map Some (set_add acc x)"
    by (auto simp: set_add_def)
  then show ?case using Cons.IH [of "set_add acc x"] by simp
qed

lemma sort_default_Some: "sort_default (map Some xs) = map Some (sort xs)"
  by (simp add: sort_default_def filter_map comp_def)

lemma categories_objects_of: "categories_objects (map object_of xs) = map Some (categories xs)"
proof -
  have a: "map prop_category (map object_of xs) = map Some (map category xs)"
    by (simp add: object_of_def)
  have b: "new_Set (map Some ys) = map Some (new_Set ys)" for ys :: "string list"
    using foldl_set_add_Some [of "[]" ys] by (simp add: new_Set_def)
  show ?thesis
    unfolding categories_objects_def categories_def a b sort_default_Some ..
qed

section \<open>Startup and events\<close>

lemma createCard_cases: "createCard x = Inr (Card x) \<or> createCard x = Inl URIError"
  by (simp add: createCard_def split: option.split)

lemma appendCards_frame:
  "snd (appendCards xs s) = s\<lparr>dashboard := dashboard (snd (appendCards xs s))\<rparr>"
proof (induction xs arbitrary: s)
  case Nil
  show ?case by simp
next
  case (Cons x xs)
  show ?case
  proof (cases "createCard x")
    case (Inl e)
    then show ?thesis by simp
  next
    case (Inr c)
    then show ?thesis
      using Cons.IH [of "s\<lparr>dashboard := dashboard s @ [c]\<rparr>"] by simp
  qed
qed

lemma appendCards_Normal:
  "\<forall>x\<in>set xs. createCard x = Inr (Card x) \<Longrightarrow>
   appendCards xs s = (Normal, s\<lparr>dashboard := dashboard s @ map Card xs\<rparr>)"
  by (induction xs arbitrary: s) simp_all

lemma appendCards_fst:
  "fst (appendCards xs s) = Normal \<longleftrightarrow> (\<forall>x\<in>set xs. createCard x = Inr (Card x))"
proof (induction xs arbitrary: s)
  case Nil
  show ?case by simp
next
  case (Cons x xs)
  show ?case
    using createCard_cases [of x] Cons.IH by auto
qed

lemma renderGrid_frame:
  "snd (renderGrid xs s) = s\<lparr>dashboard := dashboard (snd (renderGrid xs s))\<rparr>"
  using appendCards_frame [of xs "s\<lparr>dashboard := []\<rparr>"] by (simp add: renderGrid_def)

lemma renderGrid_Normal:
  "\<forall>x\<in>set xs. createCard x = Inr (Card x) \<Longrightarrow>
   renderGrid xs s = (Normal, s\<lparr>dashboard := map Card xs\<rparr>)"
  by (simp add: renderGrid_def appendCards_Normal)

lemma renderGrid_fst:
  "fst (renderGrid xs s) = Normal \<longleftrightarrow> (\<forall>x\<in>set xs. createCard x = Inr (Card x))"
  by (simp add: renderGrid_def appendCards_fst)

lemma filterInnovations_frame:
  "snd (filterInnovations q c s) =
     s\<lparr>dashboard := dashboard (snd (filterInnovations q c s)),
       noResultsMessage := noResultsMessage (snd (filterInnovations q c s))\<rparr>"
proof (cases "allInnovations s")
  case Other
  then show ?thesis by (simp add: filterInnovations_def)
next
  case (Records catalog)
  show ?thesis
  proof (cases "filtered_objects catalog q c")
    case (Inl e)
    with Records show ?thesis by (simp add: filterInnovations_def)
  next
    case (Inr flt)
    obtain k t where r: "renderGrid flt s = (k, t)" by (cases "renderGrid flt s")
    then have "t = s\<lparr>dashboard := dashboard t\<rparr>"
      using renderGrid_frame [of flt s] by simp
    then obtain d where t: "t = s\<lparr>dashboard := d\<rparr>" ..
    from Records Inr r show ?thesis
      by (cases k) (simp_all add: filterInnovations_def t)
  qed
qed

lemma foldl_pills:
  "foldl (\<lambda>t cat. t\<lparr>categoryFilters := categoryFilters t @ [cat]\<rparr>) s cats =
     s\<lparr>categoryFilters := categoryFilters s @ cats\<rparr>"
  by (induction cats arbitrary: s) simp_all

lemma setupFilters_eq:
  "setupFilters xs s =
     s\<lparr>categoryFilters :=
         filter (\<lambda>c. ToString c = ''all'') (categoryFilters s) @ categories_objects xs,
       active := (if active s = Some ''all'' then active s else None),
       allPill_listener := allPill s\<rparr>"
  by (simp add: setupFilters_def foldl_pills Let_def)

lemma run_failed:
  "r = Rejected \<or> r = Unparsable \<Longrightarrow>
   run r s =
     (Caught,
      s\<lparr>loader := hide (loader s),
        errorMessage :=
          map_option (\<lambda>m. m\<lparr>display := ''block'',
             textContent := ''We encountered a rift in the data stream. Please reload to try again.''\<rparr>)
            (errorMessage s)\<rparr>)"
  by (auto simp: run_def catch_block_def Let_def)

lemma run_ParsedOther:
  "run ParsedOther s =
     (Caught,
      s\<lparr>allInnovations := Other, assignments := Suc (assignments s),
        loader := hide (loader s),
        errorMessage :=
          map_option (\<lambda>m. m\<lparr>display := ''block'',
             textContent := ''We encountered a rift in the data stream. Please reload to try again.''\<rparr>)
            (errorMessage s)\<rparr>)"
  by (simp add: run_def catch_block_def Let_def hide_def option.map_comp comp_def)

lemma run_Parsed_Completed:
  "\<forall>x\<in>set data. createCard x = Inr (Card x) \<Longrightarrow>
   run (Parsed data) s =
     (Completed,
      s\<lparr>allInnovations := Records data, assignments := Suc (assignments s),
        loader := hide (loader s),
        categoryFilters :=
          filter (\<lambda>c. ToString c = ''all'') (categoryFilters s) @ categories_objects data,
        active := (if active s = Some ''all'' then active s else None),
        allPill_listener := allPill s, dashboard := map Card data,
        spotlight := (if length data > 0 then Some (data ! 0) else spotlight s),
        listeners := True\<rparr>)"
  by (simp add: run_def setupFilters_eq renderGrid_Normal updateSpotlight_def Let_def)

lemma run_Parsed_Caught:
  assumes "\<exists>x\<in>set data. createCard x \<noteq> Inr (Card x)"
  shows "\<exists>d. run (Parsed data) s =
     (Caught,
      s\<lparr>allInnovations := Records data, assignments := Suc (assignments s),
        loader := hide (loader s),
        categoryFilters :=
          filter (\<lambda>c. ToString c = ''all'') (categoryFilters s) @ categories_objects data,
        active := (if active s = Some ''all'' then active s else None),
        allPill_listener := allPill s, dashboard := d,
        errorMessage :=
          map_option (\<lambda>m. m\<lparr>display := ''block'',
             textContent := ''We encountered a rift in the data stream. Please reload to try again.''\<rparr>)
            (errorMessage s)\<rparr>)"
proof -
  let ?s3 = "setupFilters data
      (s\<lparr>allInnovations := Records data, assignments := Suc (assignments s),
         loader := hide (loader s)\<rparr>)"
  obtain k t where r: "renderGrid data ?s3 = (k, t)" by (cases "renderGrid data ?s3")
  from assms have "fst (renderGrid data ?s3) \<noteq> Normal"
    by (simp add: renderGrid_fst)
  with r obtain e where k: "k = Throw e" by (cases k) simp_all
  from r have "t = ?s3\<lparr>dashboard := dashboard t\<rparr>"
    using renderGrid_frame [of data ?s3] by simp
  then obtain d where t: "t = ?s3\<lparr>dashboard := d\<rparr>" ..
  have "run (Parsed data) s = (Caught, catch_block t)"
    using r k by (simp add: run_def Let_def)
  then show ?thesis
    by (intro exI [of _ d])
      (simp add: t setupFilters_eq catch_block_def Let_def hide_def option.map_comp comp_def)
qed

lemma run_Parsed_branch:
  "fst (run (Parsed data) s) = Completed \<longleftrightarrow> (\<forall>x\<in>set data. createCard x = Inr (Card x))"
proof
  assume c: "fst (run (Parsed data) s) = Completed"
  show "\<forall>x\<in>set data. createCard x = Inr (Card x)"
  proof (rule ccontr)
    assume "\<not> (\<forall>x\<in>set data. createCard x = Inr (Card x))"
    then have "\<exists>x\<in>set data. createCard x \<noteq> Inr (Card x)" by simp
    from run_Parsed_Caught [OF this, of s] c show False by auto
  qed
next
  assume "\<forall>x\<in>set data. createCard x = Inr (Card x)"
  then show "fst (run (Parsed data) s) = Completed"
    by (simp add: run_Parsed_Completed)
qed

lemma run_Parsed_store:
  "allInnovations (snd (run (Parsed data) s)) = Records data \<and>
   assignments (snd (run (Parsed data) s)) = Suc (assignments s)"
proof (cases "\<forall>x\<in>set data. createCard x = Inr (Card x)")
  case True
  then show ?thesis by (simp add: run_Parsed_Completed)
next
  case False
  then have "\<exists>x\<in>set data. createCard x \<noteq> Inr (Card x)" by simp
  from run_Parsed_Caught [OF this, of s] show ?thesis by auto
qed

lemma renderGrid_changes:
  "\<exists>d. snd (renderGrid xs s) = s\<lparr>dashboard := d\<rparr>"
  using renderGrid_frame [of xs s] by (rule exI)

lemma filterInnovations_changes:
  "\<exists>d n. snd (filterInnovations q c s) = s\<lparr>dashboard := d, noResultsMessage := n\<rparr>"
  using filterInnovations_frame [of q c s] by (intro exI)

lemma filterInnovations_keeps:
  "allInnovations (snd (filterInnovations q c s)) = allInnovations s \<and>
   assignments (snd (filterInnovations q c s)) = assignments s \<and>
   spotlight (snd (filterInnovations q c s)) = spotlight s"
proof -
  obtain d n where "snd (filterInnovations q c s) = s\<lparr>dashboard := d, noResultsMessage := n\<rparr>"
    using filterInnovations_changes by blast
  then show ?thesis by simp
qed

lemma dispatch_store:
  "allInnovations (dispatch s e) = allInnovations s \<and> assignments (dispatch s e) = assignments s"
  by (cases e)
    (simp_all add: filterInnovations_keeps pill_click_def allPill_click_def search_input_def
      keydown_def updateSpotlight_def Let_def split: card.split)

lemma session_store:
  "allInnovations (session s es) = allInnovations s \<and> assignments (session s es) = assignments s"
  unfolding session_def by (induction es arbitrary: s) (simp_all add: dispatch_store)

lemma dispatch_spotlight:
  "(\<forall>i. e \<noteq> CardClick i) \<Longrightarrow> spotlight (dispatch s e) = spotlight s"
  by (cases e)
    (simp_all add: filterInnovations_keeps pill_click_def allPill_click_def search_input_def
      keydown_def Let_def)

lemma session_spotlight:
  "(\<forall>i. CardClick i \<notin> set es) \<Longrightarrow> spotlight (session s es) = spotlight s"
  unfolding session_def
proof (induction es arbitrary: s)
  case Nil
  show ?case by simp
next
  case (Cons e es)
  from Cons.prems have "\<forall>i. e \<noteq> CardClick i" and "\<forall>i. CardClick i \<notin> set es"
    by auto
  then show ?case
    using Cons.IH [of "dispatch s e"] by (simp add: dispatch_spotlight)
qed

lemma createCard_Inr:
  "createCard x = Inr (Card x) \<longleftrightarrow> (\<forall>q. prop_imageQuery x = Some q \<longrightarrow> well_formed q)"
  by (simp add: createCard_def split: option.split)

lemma run_Parsed_rendered:
  "fst (run (Parsed data) s) = Completed \<longleftrightarrow>
     (\<forall>x\<in>set data. \<forall>q. prop_imageQuery x = Some q \<longrightarrow> well_formed q)"
  by (simp add: run_Parsed_branch createCard_Inr)

lemma run_Parsed_thrown:
  "fst (run (Parsed data) s) = Caught \<longleftrightarrow>
     (\<exists>x\<in>set data. \<exists>q. prop_imageQuery x = Some q \<and> \<not> well_formed q)"
proof -
  have "fst (run (Parsed data) s) = Caught \<longleftrightarrow> fst (run (Parsed data) s) \<noteq> Completed"
    by (cases "fst (run (Parsed data) s)") simp_all
  then show ?thesis
    by (simp add: run_Parsed_rendered)
qed

lemma run_Parsed_Caught_page:
  assumes "fst (run (Parsed data) s) = Caught"
  shows "spotlight (snd (run (Parsed data) s)) = spotlight s"
    and "listeners (snd (run (Parsed data) s)) = listeners s"
    and "map_option display (errorMessage (snd (run (Parsed data) s))) =
           map_option (\<lambda>_. ''block'') (errorMessage s)"
proof -
  from assms have "\<exists>x\<in>set data. createCard x \<noteq> Inr (Card x)"
    using run_Parsed_branch [of data s] by auto
  from run_Parsed_Caught [OF this, of s] obtain d where
    "run (Parsed data) s =
     (Caught,
      s\<lparr>allInnovations := Records data, assignments := Suc (assignments s),
        loader := hide (loader s),
        categoryFilters :=
          filter (\<lambda>c. ToString c = ''all'') (categoryFilters s) @ categories_objects data,
        active := (if active s = Some ''all'' then active s else None),
        allPill_listener := allPill s, dashboard := d,
        errorMessage :=
          map_option (\<lambda>m. m\<lparr>display := ''block'',
             textContent := ''We encountered a rift in the data stream. Please reload to try again.''\<rparr>)
            (errorMessage s)\<rparr>)" ..
  then show "spotlight (snd (run (Parsed data) s)) = spotlight s"
    and "listeners (snd (run (Parsed data) s)) = listeners s"
    and "map_option display (errorMessage (snd (run (Parsed data) s))) =
           map_option (\<lambda>_. ''block'') (errorMessage s)"
    by (simp_all add: option.map_comp comp_def)
qed

lemma run_Parsed_Completed_page:
  assumes "fst (run (Parsed data) s) = Completed"
  shows "spotlight (snd (run (Parsed data) s)) =
           (if length data > 0 then Some (data ! 0) else spotlight s)"
    and "errorMessage (snd (run (Parsed data) s)) = errorMessage s"
    and "dashboard (snd (run (Parsed data) s)) = map Card data"
    and "listeners (snd (run (Parsed data) s))"
proof -
  from assms have "\<forall>x\<in>set data. createCard x = Inr (Card x)"
    by (simp add: run_Parsed_branch)
  note eq = run_Parsed_Completed [OF this, of s]
  show "spotlight (snd (run (Parsed data) s)) =
           (if length data > 0 then Some (data ! 0) else spotlight s)"
    and "errorMessage (snd (run (Parsed data) s)) = errorMessage s"
    and "dashboard (snd (run (Parsed data) s)) = map Card data"
    and "listeners (snd (run (Parsed data) s))"
    unfolding eq by simp_all
qed

lemma well_formed_samples:
  "well_formed (imageQuery crispr)" "well_formed (imageQuery fusion)"
  "well_formed (imageQuery mrna)" "\<not> well_formed (imageQuery quantum)"
  by code_simp+

lemma run_samples:
  "fst (run (Parsed [object_of crispr, object_of fusion, object_of mrna]) s) = Completed"
  "fst (run (Parsed [object_of crispr, object_of fusion]) s) = Completed"
  "fst (run (Parsed [partial]) s) = Completed"
  "fst (run (Parsed []) s) = Completed"
  "fst (run (Parsed [object_of crispr, object_of quantum]) s) = Caught"
  by (simp_all add: run_Parsed_rendered run_Parsed_thrown object_of_def partial_def
      well_formed_samples)

lemma filterInnovations_typed:
  assumes "allInnovations s = Records (map object_of catalog)"
    and "\<forall>r\<in>set catalog. well_formed (imageQuery r)"
  shows "fst (filterInnovations q (Some c) s) = Normal"
    and "dashboard (snd (filterInnovations q (Some c) s)) =
           map (\<lambda>r. Card (object_of r)) (filtered catalog q c)"
proof -
  have "\<forall>x\<in>set (map object_of (filtered catalog q c)). createCard x = Inr (Card x)"
    using assms(2) by (auto simp: createCard_Inr object_of_def filtered_filter)
  then have "renderGrid (map object_of (filtered catalog q c)) s =
               (Normal, s\<lparr>dashboard := map Card (map object_of (filtered catalog q c))\<rparr>)"
    by (rule renderGrid_Normal)
  then show "fst (filterInnovations q (Some c) s) = Normal"
    and "dashboard (snd (filterInnovations q (Some c) s)) =
           map (\<lambda>r. Card (object_of r)) (filtered catalog q c)"
    using assms(1) by (simp_all add: filterInnovations_def filtered_objects_of comp_def)
qed

text \<open>
  C5: when the request fails or the response text does not parse, \<open>run\<close> ends in the
  catch block with the loader hidden and the error indicator shown with its fixed
  message (for each of the two elements the document has), the store still empty and
  never assigned, and no card, pill, spotlight or listener produced.
\<close>

theorem C5_failure_state:
  "r = Rejected \<or> r = Unparsable \<Longrightarrow>
   fst (run r (initial ld err nores allp act foc)) = Caught \<and>
   map_option display (loader (snd (run r (initial ld err nores allp act foc)))) =
     map_option (\<lambda>_. ''none'') ld \<and>
   map_option display (errorMessage (snd (run r (initial ld err nores allp act foc)))) =
     map_option (\<lambda>_. ''block'') err \<and>
   map_option textContent (errorMessage (snd (run r (initial ld err nores allp act foc)))) =
     map_option (\<lambda>_. ''We encountered a rift in the data stream. Please reload to try again.'') err \<and>
   allInnovations (snd (run r (initial ld err nores allp act foc))) = Records [] \<and>
   assignments (snd (run r (initial ld err nores allp act foc))) = 0 \<and>
   dashboard (snd (run r (initial ld err nores allp act foc))) = [] \<and>
   categoryFilters (snd (run r (initial ld err nores allp act foc))) = [] \<and>
   spotlight (snd (run r (initial ld err nores allp act foc))) = None \<and>
   \<not> listeners (snd (run r (initial ld err nores allp act foc))) \<and>
   \<not> allPill_listener (snd (run r (initial ld err nores allp act foc)))"
proof -
  assume r: "r = Rejected \<or> r = Unparsable"
  show ?thesis
    unfolding run_failed [OF r]
    by (simp add: initial_def hide_def option.map_comp comp_def)
qed

theorem C5_failure_state_witness:
  "fst (run Rejected page0) = Caught \<and>
   map_option display (loader (snd (run Rejected page0))) = Some ''none'' \<and>
   map_option display (errorMessage (snd (run Rejected page0))) = Some ''block'' \<and>
   allInnovations (snd (run Rejected page0)) = Records [] \<and>
   dashboard (snd (run Rejected page0)) = [] \<and>
   categoryFilters (snd (run Rejected page0)) = [] \<and>
   spotlight (snd (run Rejected page0)) = None"
  using C5_failure_state [of Rejected "Some \<lparr>display = ''flex'', textContent = []\<rparr>"
      "Some \<lparr>display = ''none'', textContent = []\<rparr>"
      "Some \<lparr>display = ''none'', textContent = []\<rparr>" True "Some ''all''" "OtherElement False"]
  unfolding page0_def by simp

text \<open>
  C10: when the response parses to the empty array, \<open>run\<close> completes its try block:
  the catch block is not entered, the error indicator is untouched, the store and the
  grid are empty, the listeners are installed and the spotlight is as it was, so
  \<open>updateSpotlight\<close>, which always leaves a record in the spotlight, was not called;
  started from the initial page, the spotlight is still unrendered.
\<close>

theorem C10_empty_catalog:
  "fst (run (Parsed []) s) = Completed \<and>
   spotlight (snd (run (Parsed []) s)) = spotlight s \<and>
   errorMessage (snd (run (Parsed []) s)) = errorMessage s \<and>
   allInnovations (snd (run (Parsed []) s)) = Records [] \<and>
   dashboard (snd (run (Parsed []) s)) = [] \<and>
   listeners (snd (run (Parsed []) s)) \<and>
   spotlight (snd (run (Parsed []) (initial ld err nores allp act foc))) = None"
  by (simp add: run_Parsed_Completed initial_def)

theorem C10_empty_catalog_witness:
  "fst (run (Parsed []) page0) = Completed \<and> spotlight (snd (run (Parsed []) page0)) = None"
  using C10_empty_catalog [of page0 "Some \<lparr>display = ''flex'', textContent = []\<rparr>"
      "Some \<lparr>display = ''none'', textContent = []\<rparr>"
      "Some \<lparr>display = ''none'', textContent = []\<rparr>" True "Some ''all''" "OtherElement False"]
  unfolding page0_def by (elim conjE) (intro conjI, assumption+)

text \<open>
  C7 (as stated): after every successful acquisition of a non-empty sequence the
  spotlight shows the first record. This fails when a card cannot be rendered: for a
  record whose image query holds an unpaired surrogate \<open>createCard\<close> throws at line
  38, inside the try block, so the catch block runs with the store assigned and line
  195 is never reached.
\<close>

theorem C7_unpaired_surrogate_counterexample:
  "fst (run (Parsed [object_of crispr, object_of quantum]) page0) = Caught \<and>
   allInnovations (snd (run (Parsed [object_of crispr, object_of quantum]) page0)) =
     Records [object_of crispr, object_of quantum] \<and>
   spotlight (snd (run (Parsed [object_of crispr, object_of quantum]) page0)) = None"
proof -
  have c: "fst (run (Parsed [object_of crispr, object_of quantum]) page0) = Caught"
    by (rule run_samples)
  have "spotlight page0 = None"
    by (simp add: page0_def initial_def)
  with c run_Parsed_Caught_page(1) [OF c] run_Parsed_store show ?thesis
    by simp
qed

text \<open>
  C7 (amended): after a successful acquisition of a non-empty sequence for which
  \<open>run\<close> completes its try block, the spotlight shows the record at index 0 of the
  catalog, the first record acquired. The try block completes exactly when no image
  query that is present holds an unpaired surrogate; otherwise the catch block runs
  and the spotlight is left as it was. A run of events without a card click leaves
  the spotlight as it is, and a click on a card puts that card's record there.
\<close>

theorem C7_spotlight:
  "(data \<noteq> [] \<and> fst (run (Parsed data) s) = Completed \<longrightarrow>
      spotlight (snd (run (Parsed data) s)) = Some (data ! 0) \<and>
      allInnovations (snd (run (Parsed data) s)) = Records data) \<and>
   (fst (run (Parsed data) s) = Completed \<longleftrightarrow>
      (\<forall>x\<in>set data. \<forall>q. prop_imageQuery x = Some q \<longrightarrow> well_formed q)) \<and>
   (fst (run (Parsed data) s) = Caught \<longrightarrow>
      spotlight (snd (run (Parsed data) s)) = spotlight s) \<and>
   ((\<forall>i. CardClick i \<notin> set es) \<longrightarrow> spotlight (session t es) = spotlight t) \<and>
   (i < length (dashboard t) \<longrightarrow>
      spotlight (dispatch t (CardClick i)) = Some (case dashboard t ! i of Card r \<Rightarrow> r))"
proof (intro conjI impI)
  assume a: "data \<noteq> [] \<and> fst (run (Parsed data) s) = Completed"
  then show "spotlight (snd (run (Parsed data) s)) = Some (data ! 0)"
    by (simp add: run_Parsed_Completed_page(1))
  show "allInnovations (snd (run (Parsed data) s)) = Records data"
    by (simp add: run_Parsed_store)
next
  show "fst (run (Parsed data) s) = Completed \<longleftrightarrow>
      (\<forall>x\<in>set data. \<forall>q. prop_imageQuery x = Some q \<longrightarrow> well_formed q)"
    by (rule run_Parsed_rendered)
next
  assume "fst (run (Parsed data) s) = Caught"
  then show "spotlight (snd (run (Parsed data) s)) = spotlight s"
    by (rule run_Parsed_Caught_page(1))
next
  assume "\<forall>i. CardClick i \<notin> set es"
  then show "spotlight (session t es) = spotlight t"
    by (rule session_spotlight)
next
  assume "i < length (dashboard t)"
  then show "spotlight (dispatch t (CardClick i)) = Some (case dashboard t ! i of Card r \<Rightarrow> r)"
    by (simp add: updateSpotlight_def split: card.split)
qed

theorem C7_spotlight_witness:
  "fst (run (Parsed [object_of crispr, object_of fusion, object_of mrna]) page0) = Completed \<and>
   spotlight (snd (run (Parsed [object_of crispr, object_of fusion, object_of mrna]) page0)) =
     Some (object_of crispr) \<and>
   spotlight (session (snd (run (Parsed [object_of crispr, object_of fusion, object_of mrna]) page0))
                [Input ''gene'' None, PillClick 0, KeyDown slash, AllPillClick]) =
     Some (object_of crispr) \<and>
   spotlight (dispatch (snd (run (Parsed [object_of crispr, object_of fusion, object_of mrna]) page0))
                (CardClick 1)) = Some (object_of fusion)"
proof -
  let ?data = "[object_of crispr, object_of fusion, object_of mrna]"
  let ?s = "snd (run (Parsed ?data) page0)"
  let ?es = "[Input ''gene'' None, PillClick 0, KeyDown slash, AllPillClick]"
  note a = C7_spotlight [where data = ?data and s = page0 and es = ?es and t = ?s and i = 1]
  have c: "fst (run (Parsed ?data) page0) = Completed"
    by (rule run_samples)
  have d: "dashboard ?s = [Card (object_of crispr), Card (object_of fusion), Card (object_of mrna)]"
    using run_Parsed_Completed_page(3) [OF c] by simp
  have 1: "spotlight ?s = Some (object_of crispr)"
    using a c by simp
  have "\<forall>i. CardClick i \<notin> set ?es" by simp
  with a have "spotlight (session ?s ?es) = spotlight ?s" by blast
  with 1 have 2: "spotlight (session ?s ?es) = Some (object_of crispr)" by simp
  have 3: "spotlight (dispatch ?s (CardClick 1)) = Some (object_of fusion)"
    using a d by simp
  from c 1 2 3 show ?thesis by blast
qed

text \<open>
  C8: neither a filter pass nor a render pass nor any sequence of events changes the
  store or the number of assignments to it; after a successful acquisition and any
  events the store is the acquired sequence and has been assigned once, and in every
  session it has been assigned at most once.
\<close>

theorem C8_store_written_once:
  "allInnovations (snd (filterInnovations q c s)) = allInnovations s \<and>
   allInnovations (snd (renderGrid xs s)) = allInnovations s \<and>
   allInnovations (session s es) = allInnovations s \<and>
   assignments (session s es) = assignments s \<and>
   allInnovations (session (snd (run (Parsed data) (initial ld err nores allp act foc))) es) =
     Records data \<and>
   assignments (session (snd (run (Parsed data) (initial ld err nores allp act foc))) es) = 1 \<and>
   assignments (session (snd (run r (initial ld err nores allp act foc))) es) \<le> 1"
proof -
  have "assignments (snd (run r (initial ld err nores allp act foc))) \<le> 1"
    by (cases r) (simp_all add: run_Parsed_store run_ParsedOther run_failed initial_def)
  moreover obtain d where "snd (renderGrid xs s) = s\<lparr>dashboard := d\<rparr>"
    using renderGrid_changes by blast
  then have "allInnovations (snd (renderGrid xs s)) = allInnovations s"
    by simp
  ultimately show ?thesis
    by (simp add: session_store filterInnovations_keeps run_Parsed_store initial_def)
qed

theorem C8_store_written_once_witness:
  "allInnovations (session (snd (run (Parsed [object_of crispr, object_of fusion, object_of mrna]) page0))
     [Input ''gene'' None, PillClick 0, CardClick 0, AllPillClick]) =
     Records [object_of crispr, object_of fusion, object_of mrna] \<and>
   assignments (session (snd (run (Parsed [object_of crispr, object_of fusion, object_of mrna]) page0))
     [Input ''gene'' None, PillClick 0, CardClick 0, AllPillClick]) = 1"
  using C8_store_written_once [where q = "[]" and c = None and s = page0 and xs = "[]"
      and es = "[Input ''gene'' None, PillClick 0, CardClick 0, AllPillClick]"
      and data = "[object_of crispr, object_of fusion, object_of mrna]"
      and ld = "Some \<lparr>display = ''flex'', textContent = []\<rparr>"
      and err = "Some \<lparr>display = ''none'', textContent = []\<rparr>"
      and nores = "Some \<lparr>display = ''none'', textContent = []\<rparr>"
      and allp = True and act = "Some ''all''" and foc = "OtherElement False" and r = Rejected]
  unfolding page0_def by (elim conjE) (intro conjI, assumption+)

text \<open>
  C2 (as stated): a failed request, a response that is not JSON or violates the
  schema, and an empty result all end in the catch block, and nothing is stored. This
  fails for the empty result and for a record with a missing field: the empty array,
  and the array of one object without \<open>significance\<close>, are assigned to the store, the
  try block completes and the error indicator stays hidden.
\<close>

theorem C2_not_rejected_counterexample:
  "fst (run (Parsed []) page0) = Completed \<and>
   allInnovations (snd (run (Parsed []) page0)) = Records [] \<and>
   assignments (snd (run (Parsed []) page0)) = 1 \<and>
   errorMessage (snd (run (Parsed []) page0)) = Some \<lparr>display = ''none'', textContent = []\<rparr> \<and>
   prop_significance partial = None \<and>
   fst (run (Parsed [partial]) page0) = Completed \<and>
   allInnovations (snd (run (Parsed [partial]) page0)) = Records [partial] \<and>
   errorMessage (snd (run (Parsed [partial]) page0)) =
     Some \<lparr>display = ''none'', textContent = []\<rparr>"
proof -
  have e: "errorMessage page0 = Some \<lparr>display = ''none'', textContent = []\<rparr>"
    and n: "assignments page0 = 0"
    by (simp_all add: page0_def initial_def)
  have p: "prop_significance partial = None"
    by (simp add: partial_def)
  have c0: "fst (run (Parsed []) page0) = Completed"
    and c1: "fst (run (Parsed [partial]) page0) = Completed"
    by (rule run_samples)+
  show ?thesis
    using e n p c0 c1 run_Parsed_Completed_page(2) [OF c0] run_Parsed_Completed_page(2) [OF c1]
      run_Parsed_store [of "[]" page0] run_Parsed_store [of "[partial]" page0]
    by simp
qed

text \<open>
  C2 (amended): a failed request and a response text that does not parse end in the
  catch block, with the error indicator shown and the store neither assigned nor
  changed. A parsed value is assigned to the store as it is, without validation: an
  array of objects, empty or with properties missing, is stored, and \<open>run\<close> then
  ends in the catch block exactly when an image query that is present holds an
  unpaired surrogate, so that a card cannot be rendered, and completes its try block
  with the error indicator untouched otherwise; a value that is not an array, or an
  array with a \<open>null\<close> element, is stored too and ends in the catch block.
\<close>

theorem C2_acquisition_outcomes:
  "(r = Rejected \<or> r = Unparsable \<longrightarrow>
      fst (run r s) = Caught \<and>
      allInnovations (snd (run r s)) = allInnovations s \<and>
      assignments (snd (run r s)) = assignments s \<and>
      map_option display (errorMessage (snd (run r s))) =
        map_option (\<lambda>_. ''block'') (errorMessage s)) \<and>
   allInnovations (snd (run (Parsed data) s)) = Records data \<and>
   assignments (snd (run (Parsed data) s)) = Suc (assignments s) \<and>
   (fst (run (Parsed data) s) = Caught \<longleftrightarrow>
      (\<exists>x\<in>set data. \<exists>q. prop_imageQuery x = Some q \<and> \<not> well_formed q)) \<and>
   (fst (run (Parsed data) s) = Caught \<longrightarrow>
      map_option display (errorMessage (snd (run (Parsed data) s))) =
        map_option (\<lambda>_. ''block'') (errorMessage s)) \<and>
   (fst (run (Parsed data) s) = Completed \<longrightarrow>
      errorMessage (snd (run (Parsed data) s)) = errorMessage s) \<and>
   fst (run ParsedOther s) = Caught \<and>
   allInnovations (snd (run ParsedOther s)) = Other \<and>
   assignments (snd (run ParsedOther s)) = Suc (assignments s)"
proof (intro conjI impI)
  assume r: "r = Rejected \<or> r = Unparsable"
  show "fst (run r s) = Caught"
    and "allInnovations (snd (run r s)) = allInnovations s"
    and "assignments (snd (run r s)) = assignments s"
    and "map_option display (errorMessage (snd (run r s))) =
           map_option (\<lambda>_. ''block'') (errorMessage s)"
    unfolding run_failed [OF r] by (simp_all add: option.map_comp comp_def)
next
  show "allInnovations (snd (run (Parsed data) s)) = Records data"
    and "assignments (snd (run (Parsed data) s)) = Suc (assignments s)"
    by (simp_all add: run_Parsed_store)
  show "fst (run (Parsed data) s) = Caught \<longleftrightarrow>
      (\<exists>x\<in>set data. \<exists>q. prop_imageQuery x = Some q \<and> \<not> well_formed q)"
    by (rule run_Parsed_thrown)
  show "fst (run ParsedOther s) = Caught"
    and "allInnovations (snd (run ParsedOther s)) = Other"
    and "assignments (snd (run ParsedOther s)) = Suc (assignments s)"
    by (simp_all add: run_ParsedOther)
next
  assume "fst (run (Parsed data) s) = Caught"
  then show "map_option display (errorMessage (snd (run (Parsed data) s))) =
        map_option (\<lambda>_. ''block'') (errorMessage s)"
    by (rule run_Parsed_Caught_page(3))
next
  assume "fst (run (Parsed data) s) = Completed"
  then show "errorMessage (snd (run (Parsed data) s)) = errorMessage s"
    by (rule run_Parsed_Completed_page(2))
qed

theorem C2_acquisition_outcomes_witness:
  "fst (run Unparsable page0) = Caught \<and>
   allInnovations (snd (run Unparsable page0)) = Records [] \<and>
   map_option display (errorMessage (snd (run Unparsable page0))) = Some ''block'' \<and>
   allInnovations (snd (run (Parsed [object_of crispr, object_of quantum]) page0)) =
     Records [object_of crispr, object_of quantum] \<and>
   map_option display
     (errorMessage (snd (run (Parsed [object_of crispr, object_of quantum]) page0))) =
     Some ''block'' \<and>
   errorMessage (snd (run (Parsed [object_of crispr, object_of fusion]) page0)) =
     Some \<lparr>display = ''none'', textContent = []\<rparr>"
proof -
  note a = C2_acquisition_outcomes [where r = Unparsable and s = page0
      and data = "[object_of crispr, object_of quantum]"]
  note b = C2_acquisition_outcomes [where r = Unparsable and s = page0
      and data = "[object_of crispr, object_of fusion]"]
  have p: "allInnovations page0 = Records []"
    "errorMessage page0 = Some \<lparr>display = ''none'', textContent = []\<rparr>"
    by (simp_all add: page0_def initial_def)
  have c: "fst (run (Parsed [object_of crispr, object_of quantum]) page0) = Caught"
    "fst (run (Parsed [object_of crispr, object_of fusion]) page0) = Completed"
    by (rule run_samples)+
  from a have 1: "fst (run Unparsable page0) = Caught"
    and 2: "allInnovations (snd (run Unparsable page0)) = allInnovations page0"
    and 3: "map_option display (errorMessage (snd (run Unparsable page0))) =
              map_option (\<lambda>_. ''block'') (errorMessage page0)"
    and 4: "allInnovations (snd (run (Parsed [object_of crispr, object_of quantum]) page0)) =
              Records [object_of crispr, object_of quantum]"
    by simp_all
  from a c(1) have 5: "map_option display
     (errorMessage (snd (run (Parsed [object_of crispr, object_of quantum]) page0))) =
     map_option (\<lambda>_. ''block'') (errorMessage page0)"
    by blast
  from b c(2) have 6: "errorMessage (snd (run (Parsed [object_of crispr, object_of fusion]) page0)) =
     errorMessage page0"
    by blast
  from 1 2 3 4 5 6 p show ?thesis by simp
qed

text \<open>
  C9 (as stated): on a keydown of "/" the search field is focused exactly when it does
  not have the focus and the event's target is not a text field. This fails when the
  focus and the target are a text field other than the search field: the listener
  tests the key and \<open>document.activeElement\<close> only, and focuses the search field.
\<close>

theorem C9_text_field_counterexample:
  "key slash = ''/'' \<and> is_text_field (target slash) \<and>
   activeElement page1 = OtherElement True \<and>
   fst (keydown slash page1) \<and>
   activeElement (snd (keydown slash page1)) = SearchInput \<and>
   activeElement (dispatch (snd (run (Parsed [object_of crispr]) page1)) (KeyDown slash)) =
     SearchInput"
proof -
  have "\<forall>x\<in>set [object_of crispr]. createCard x = Inr (Card x)"
    by (simp add: createCard_Inr object_of_def well_formed_samples)
  note eq = run_Parsed_Completed [OF this, of page1]
  show ?thesis
    unfolding eq by (simp add: keydown_def slash_def page1_def page0_def initial_def)
qed

text \<open>
  C9 (amended): on a keydown of "/" the listener focuses the search field (and prevents
  the default action) exactly when the search field does not have the focus, whatever
  the event's target, and the focus is on the search field afterwards; on any other
  key, or when the search field has the focus, it changes nothing.
\<close>

theorem C9_slash_focus:
  "(key e = ''/'' \<longrightarrow>
      (fst (keydown e s) \<longleftrightarrow> activeElement s \<noteq> SearchInput) \<and>
      snd (keydown e s) = s\<lparr>activeElement := SearchInput\<rparr>) \<and>
   (key e \<noteq> ''/'' \<or> activeElement s = SearchInput \<longrightarrow>
      \<not> fst (keydown e s) \<and> snd (keydown e s) = s)"
  by (auto simp: keydown_def)

theorem C9_slash_focus_witness:
  "fst (keydown slash page0) \<and> activeElement (snd (keydown slash page0)) = SearchInput \<and>
   snd (keydown slash (snd (keydown slash page0))) = snd (keydown slash page0)"
proof -
  let ?t = "snd (keydown slash page0)"
  have k: "key slash = ''/''" by (simp add: slash_def)
  have f: "activeElement page0 \<noteq> SearchInput" by (simp add: page0_def initial_def)
  note a = C9_slash_focus [where e = slash and s = page0]
  from a k f have 1: "fst (keydown slash page0)" by blast
  from a k have 2: "?t = page0\<lparr>activeElement := SearchInput\<rparr>" by blast
  then have 3: "activeElement ?t = SearchInput" by simp
  with C9_slash_focus [where e = slash and s = ?t]
  have "snd (keydown slash ?t) = ?t" by blast
  with 1 3 show ?thesis by blast
qed

end
